theory Spec2Isabelle
  imports Complex_Main "HOL-Library.Word"
begin

unbundle bit_operations_syntax

section \<open>The VDM MCU frame codec of \<^verbatim>\<open>protocol.h\<close>\<close>

text \<open>
  Frame layout on the wire:
  \<^verbatim>\<open>[SYNC1 0xAA][SYNC2 0x55][VER][TYPE][SEQ][CMD_H][CMD_L][LEN_H][LEN_L][DATA...][CRC_H][CRC_L]\<close>

  Conventions of the embedding.
  \<^item> \<^verbatim>\<open>uint8_t\<close>, \<^verbatim>\<open>uint16_t\<close>, \<^verbatim>\<open>uint32_t\<close> are words of that width; arithmetic
    that C performs after promotion to \<^verbatim>\<open>int\<close> (assumed at least 32 bits wide, as on
    the 32-bit target) is done on \<open>nat\<close>/\<open>int\<close>, and the truncation of an assignment
    to a narrower variable is written where the source has it.
  \<^item> A \<^verbatim>\<open>uint8_t *\<close> is modelled by the memory it addresses: \<open>p i\<close> is \<^verbatim>\<open>p[i]\<close>.
    C gives a pointer no extent, and neither does the model: how many bytes belong to
    the caller's object is a contract outside the function.
  \<^item> A \<^verbatim>\<open>float\<close> is its IEEE-754 binary32 representation, a 32-bit word: this is
    what the \<^verbatim>\<open>union { float f; uint32_t u; }\<close> of the source reads and writes.
  \<^item> A function that writes through a pointer returns the memory it leaves behind.
\<close>

type_synonym u8 = "8 word"
type_synonym u16 = "16 word"
type_synonym u32 = "32 word"
type_synonym bytes = "nat \<Rightarrow> u8"

subsection \<open>Pointer arithmetic\<close>

text \<open>\<^verbatim>\<open>&p[k]\<close> as a pointer to read from.\<close>

definition ptr_at :: "bytes \<Rightarrow> nat \<Rightarrow> bytes" where
  "ptr_at p k = (\<lambda>i. p (k + i))"

text \<open>Calling a function \<open>f\<close> that writes through its pointer argument on \<^verbatim>\<open>&p[k]\<close>.\<close>

definition write_at :: "nat \<Rightarrow> (bytes \<Rightarrow> bytes) \<Rightarrow> bytes \<Rightarrow> bytes" where
  "write_at k f p = (\<lambda>i. if i < k then p i else f (ptr_at p k) (i - k))"

text \<open>\<^verbatim>\<open>memcpy(dst, src, n)\<close> for source and destination that do not overlap.\<close>

definition memcpy :: "bytes \<Rightarrow> bytes \<Rightarrow> nat \<Rightarrow> bytes" where
  "memcpy dst src n = (\<lambda>i. if i < n then src i else dst i)"

text \<open>
  A C array object with the given elements, as a pointer to its first element.
  Bytes past its end are not part of the object; they read as 0 here.
\<close>

definition array_of :: "u8 list \<Rightarrow> bytes" where
  "array_of xs = (\<lambda>i. if i < length xs then xs ! i else 0)"

text \<open>The \<open>n\<close> bytes \<^verbatim>\<open>p[0] .. p[n-1]\<close>.\<close>

definition bytes_of :: "bytes \<Rightarrow> nat \<Rightarrow> u8 list" where
  "bytes_of p n = map p [0..<n]"

subsection \<open>Frame constants\<close>

definition FRAME_SYNC1 :: u8 where "FRAME_SYNC1 = 0xAA"
definition FRAME_SYNC2 :: u8 where "FRAME_SYNC2 = 0x55"
definition FRAME_VERSION :: u8 where "FRAME_VERSION = 0x10"

definition FRAME_HEADER_SIZE :: nat where "FRAME_HEADER_SIZE = 9"
definition FRAME_CRC_SIZE :: nat where "FRAME_CRC_SIZE = 2"
definition FRAME_MIN_SIZE :: nat where "FRAME_MIN_SIZE = 11"
definition FRAME_MAX_DATA_SIZE :: nat where "FRAME_MAX_DATA_SIZE = 65535"
  \<comment> \<open>declared by the header and used by none of its functions\<close>

definition OFFSET_SYNC1 :: nat where "OFFSET_SYNC1 = 0"
definition OFFSET_SYNC2 :: nat where "OFFSET_SYNC2 = 1"
definition OFFSET_VER :: nat where "OFFSET_VER = 2"
definition OFFSET_TYPE :: nat where "OFFSET_TYPE = 3"
definition OFFSET_SEQ :: nat where "OFFSET_SEQ = 4"
definition OFFSET_CMD_H :: nat where "OFFSET_CMD_H = 5"
definition OFFSET_CMD_L :: nat where "OFFSET_CMD_L = 6"
definition OFFSET_LEN_H :: nat where "OFFSET_LEN_H = 7"
definition OFFSET_LEN_L :: nat where "OFFSET_LEN_L = 8"
definition OFFSET_DATA :: nat where "OFFSET_DATA = 9"

definition TYPE_REQUEST :: u8 where "TYPE_REQUEST = 0x00"
definition TYPE_RESPONSE :: u8 where "TYPE_RESPONSE = 0x01"
definition TYPE_NOTIFY :: u8 where "TYPE_NOTIFY = 0x02"
definition TYPE_ACK :: u8 where "TYPE_ACK = 0x03"
definition TYPE_NACK :: u8 where "TYPE_NACK = 0x04"

definition CMD_MOTOR_ROTATE :: u16 where "CMD_MOTOR_ROTATE = 0x3001"

subsection \<open>Big-endian helpers\<close>

text \<open>
  \<^verbatim>\<open>
  static inline void float_to_be(float val, uint8_t *out) {
      union { float f; uint32_t u; } conv;
      conv.f = val;
      out[0] = (conv.u >> 24) & 0xFF;
      out[1] = (conv.u >> 16) & 0xFF;
      out[2] = (conv.u >> 8) & 0xFF;
      out[3] = conv.u & 0xFF;
  }
  \<close>
\<close>

definition float_to_be :: "u32 \<Rightarrow> bytes \<Rightarrow> bytes" where
  "float_to_be val out =
     out(0 := ucast (drop_bit 24 val AND 0xFF),
         1 := ucast (drop_bit 16 val AND 0xFF),
         2 := ucast (drop_bit 8 val AND 0xFF),
         3 := ucast (val AND 0xFF))"

text \<open>
  \<^verbatim>\<open>
  static inline float be_to_float(const uint8_t *in) {
      union { float f; uint32_t u; } conv;
      conv.u = ((uint32_t)in[0] << 24) | ((uint32_t)in[1] << 16) |
               ((uint32_t)in[2] << 8) | in[3];
      return conv.f;
  }
  \<close>
\<close>

definition be_to_float :: "bytes \<Rightarrow> u32" where
  "be_to_float inp =
     push_bit 24 (ucast (inp 0)) OR push_bit 16 (ucast (inp 1)) OR
     push_bit 8 (ucast (inp 2)) OR ucast (inp 3)"

text \<open>
  \<^verbatim>\<open>
  static inline uint16_t be_to_u16(const uint8_t *in) {
      return ((uint16_t)in[0] << 8) | in[1];
  }
  \<close>
\<close>

definition be_to_u16 :: "bytes \<Rightarrow> u16" where
  "be_to_u16 inp = push_bit 8 (ucast (inp 0)) OR ucast (inp 1)"

subsection \<open>CRC-16/MODBUS\<close>

text \<open>
  \<^verbatim>\<open>
  static inline uint16_t crc16_modbus(const uint8_t *data, uint16_t len) {
      uint16_t crc = 0xFFFF;
      for (uint16_t i = 0; i < len; i++) {
          crc ^= data[i];
          for (uint8_t j = 0; j < 8; j++) {
              if (crc & 0x0001)
                  crc = (crc >> 1) ^ 0xA001;
              else
                  crc >>= 1;
          }
      }
      return crc;
  }
  \<close>
  The inner loop runs its body a fixed number of times (\<open>j\<close> counts from 0 to 7);
  \<open>crc_bits n\<close> is \<open>n\<close> remaining passes through that body.
\<close>

fun crc_bits :: "nat \<Rightarrow> u16 \<Rightarrow> u16" where
  "crc_bits 0 crc = crc"
| "crc_bits (Suc n) crc =
     crc_bits n (if crc AND 0x0001 \<noteq> 0 then drop_bit 1 crc XOR 0xA001 else drop_bit 1 crc)"

text \<open>The outer loop, with its 16-bit counter \<open>i\<close>.\<close>

function crc16_loop :: "bytes \<Rightarrow> u16 \<Rightarrow> u16 \<Rightarrow> u16 \<Rightarrow> u16" where
  "crc16_loop dat n i crc =
     (if i < n then crc16_loop dat n (i + 1) (crc_bits 8 (crc XOR ucast (dat (unat i))))
      else crc)"
  by pat_completeness auto
termination
proof (relation "measure (\<lambda>(dat, n, i, crc). unat n - unat i)")
  show "wf (measure (\<lambda>(dat, n, i, crc). unat n - unat i))"
    by simp
next
  fix dat :: bytes and n i crc :: u16
  assume "i < n"
  then have lt: "unat i < unat n"
    by (simp add: word_less_nat_alt)
  moreover have "unat n < 2 ^ 16"
    using unsigned_less [of n] by simp
  ultimately have "unat i + 1 < 65536"
    by simp
  then have "unat (i + 1) = Suc (unat i)"
    by (simp add: unat_word_ariths)
  with lt show "((dat, n, i + 1, crc_bits 8 (crc XOR ucast (dat (unat i)))), (dat, n, i, crc))
      \<in> measure (\<lambda>(dat, n, i, crc). unat n - unat i)"
    by simp
qed

declare crc16_loop.simps [simp del]

definition crc16_modbus :: "bytes \<Rightarrow> u16 \<Rightarrow> u16" where
  "crc16_modbus dat n = crc16_loop dat n 0 0xFFFF"

text \<open>
  The checksum as the specification words it (section 4.1), on a list of bytes:
  initial register 0xFFFF; for each input byte, XOR it into the low byte of the
  register, then 8 times: if the low bit is set, shift right and XOR with 0xA001,
  else shift right only. It is compared with \<open>crc16_modbus\<close> below.
\<close>

definition spec_checksum_bit :: "u16 \<Rightarrow> u16" where
  "spec_checksum_bit r = (if bit r 0 then drop_bit 1 r XOR 0xA001 else drop_bit 1 r)"

definition spec_checksum :: "u8 list \<Rightarrow> u16" where
  "spec_checksum bs = foldl (\<lambda>r b. (spec_checksum_bit ^^ 8) (r XOR ucast b)) 0xFFFF bs"

subsection \<open>Sequence numbers\<close>

text \<open>
  \<^verbatim>\<open>
  static uint8_t _seq_counter = 0;
  static inline uint8_t next_seq(void) {
      return _seq_counter++;
  }
  \<close>
  The file-scope counter is the state: \<open>next_seq\<close> takes its value and returns the
  result of the call together with the counter's new value.
\<close>

definition seq_counter_init :: u8 where
  "seq_counter_init = 0"

definition next_seq :: "u8 \<Rightarrow> u8 \<times> u8" where
  "next_seq seq_counter = (seq_counter, seq_counter + 1)"

subsection \<open>Building frames\<close>

text \<open>
  \<^verbatim>\<open>
  static inline int build_frame(uint8_t *buf, uint8_t type, uint8_t seq,
                                 uint16_t cmd, const uint8_t *data, uint16_t data_len) {
      buf[OFFSET_SYNC1] = FRAME_SYNC1;
      buf[OFFSET_SYNC2] = FRAME_SYNC2;
      buf[OFFSET_VER] = FRAME_VERSION;
      buf[OFFSET_TYPE] = type;
      buf[OFFSET_SEQ] = seq;
      buf[OFFSET_CMD_H] = (cmd >> 8) & 0xFF;
      buf[OFFSET_CMD_L] = cmd & 0xFF;
      buf[OFFSET_LEN_H] = (data_len >> 8) & 0xFF;
      buf[OFFSET_LEN_L] = data_len & 0xFF;
      if (data && data_len > 0) {
          memcpy(&buf[OFFSET_DATA], data, data_len);
      }
      uint16_t crc_len = 7 + data_len;
      uint16_t crc = crc16_modbus(&buf[OFFSET_VER], crc_len);
      buf[OFFSET_DATA + data_len] = (crc >> 8) & 0xFF;
      buf[OFFSET_DATA + data_len + 1] = crc & 0xFF;
      return FRAME_HEADER_SIZE + data_len + FRAME_CRC_SIZE;
  }
  \<close>
  In the source the last part is headed by the comment "CRC (computed from VER on)"
  and \<open>crc_len\<close> carries the comment "VER to DATA" (both translated).
  The function has no parameter for the size of \<open>buf\<close>. The argument \<open>data\<close> is
  \<open>None\<close> for \<^verbatim>\<open>NULL\<close>. The sum \<^verbatim>\<open>7 + data_len\<close> is computed in \<^verbatim>\<open>int\<close> and
  truncated to 16 bits by the assignment to \<open>crc_len\<close>; the two index expressions and
  the returned value stay in \<^verbatim>\<open>int\<close>. The result is the returned value and the
  memory behind \<open>buf\<close>.
\<close>

definition build_frame ::
  "bytes \<Rightarrow> u8 \<Rightarrow> u8 \<Rightarrow> u16 \<Rightarrow> bytes option \<Rightarrow> u16 \<Rightarrow> int \<times> bytes" where
  "build_frame buf type seq cmd data data_len =
     (let buf = buf(OFFSET_SYNC1 := FRAME_SYNC1,
                    OFFSET_SYNC2 := FRAME_SYNC2,
                    OFFSET_VER := FRAME_VERSION,
                    OFFSET_TYPE := type,
                    OFFSET_SEQ := seq,
                    OFFSET_CMD_H := ucast (drop_bit 8 cmd AND 0xFF),
                    OFFSET_CMD_L := ucast (cmd AND 0xFF),
                    OFFSET_LEN_H := ucast (drop_bit 8 data_len AND 0xFF),
                    OFFSET_LEN_L := ucast (data_len AND 0xFF));
          buf = (case data of
                   None \<Rightarrow> buf
                 | Some d \<Rightarrow>
                     if data_len > 0
                     then write_at OFFSET_DATA (\<lambda>dst. memcpy dst d (unat data_len)) buf
                     else buf);
          crc_len = (7 + data_len :: u16);
          crc = crc16_modbus (ptr_at buf OFFSET_VER) crc_len;
          buf = buf(OFFSET_DATA + unat data_len := ucast (drop_bit 8 crc AND 0xFF),
                    OFFSET_DATA + unat data_len + 1 := ucast (crc AND 0xFF))
      in (int (FRAME_HEADER_SIZE + unat data_len + FRAME_CRC_SIZE), buf))"

text \<open>
  The typed constructors. Each runs in the state of \<^verbatim>\<open>_seq_counter\<close> (first
  argument) and returns, next to the result of \<open>build_frame\<close>, the counter it leaves.
  \<^verbatim>\<open>
  static inline int build_request(uint8_t *buf, uint16_t cmd,
                                   const uint8_t *data, uint16_t data_len) {
      return build_frame(buf, TYPE_REQUEST, next_seq(), cmd, data, data_len);
  }
  static inline int build_ack(uint8_t *buf, uint8_t seq, uint16_t cmd) {
      return build_frame(buf, TYPE_ACK, seq, cmd, NULL, 0);
  }
  static inline int build_response(uint8_t *buf, uint8_t seq, uint16_t cmd,
                                    const uint8_t *data, uint16_t data_len) {
      return build_frame(buf, TYPE_RESPONSE, seq, cmd, data, data_len);
  }
  static inline int build_nack(uint8_t *buf, uint8_t seq, uint16_t cmd, uint8_t error_code) {
      return build_frame(buf, TYPE_NACK, seq, cmd, &error_code, 1);
  }
  \<close>
\<close>

definition build_request ::
  "u8 \<Rightarrow> bytes \<Rightarrow> u16 \<Rightarrow> bytes option \<Rightarrow> u16 \<Rightarrow> (int \<times> bytes) \<times> u8" where
  "build_request seq_counter buf cmd data data_len =
     (let (seq, seq_counter) = next_seq seq_counter
      in (build_frame buf TYPE_REQUEST seq cmd data data_len, seq_counter))"

definition build_ack :: "u8 \<Rightarrow> bytes \<Rightarrow> u8 \<Rightarrow> u16 \<Rightarrow> (int \<times> bytes) \<times> u8" where
  "build_ack seq_counter buf seq cmd =
     (build_frame buf TYPE_ACK seq cmd None 0, seq_counter)"

definition build_response ::
  "u8 \<Rightarrow> bytes \<Rightarrow> u8 \<Rightarrow> u16 \<Rightarrow> bytes option \<Rightarrow> u16 \<Rightarrow> (int \<times> bytes) \<times> u8" where
  "build_response seq_counter buf seq cmd data data_len =
     (build_frame buf TYPE_RESPONSE seq cmd data data_len, seq_counter)"

definition build_nack :: "u8 \<Rightarrow> bytes \<Rightarrow> u8 \<Rightarrow> u16 \<Rightarrow> u8 \<Rightarrow> (int \<times> bytes) \<times> u8" where
  "build_nack seq_counter buf seq cmd error_code =
     (build_frame buf TYPE_NACK seq cmd (Some (array_of [error_code])) 1, seq_counter)"

text \<open>
  \<^verbatim>\<open>
  static inline int build_motor_rotate(uint8_t *buf, uint8_t motor_id,
                                        float angle, float velocity) {
      uint8_t data[9];
      data[0] = motor_id;
      float_to_be(angle, &data[1]);
      float_to_be(velocity, &data[5]);
      return build_request(buf, CMD_MOTOR_ROTATE, data, 9);
  }
  \<close>
  The local array starts uninitialised; all nine elements are written before it is
  read, and the model starts it from zeros.
\<close>

definition build_motor_rotate ::
  "u8 \<Rightarrow> bytes \<Rightarrow> u8 \<Rightarrow> u32 \<Rightarrow> u32 \<Rightarrow> (int \<times> bytes) \<times> u8" where
  "build_motor_rotate seq_counter buf motor_id angle velocity =
     (let data = array_of (replicate 9 0);
          data = data(0 := motor_id);
          data = write_at 1 (float_to_be angle) data;
          data = write_at 5 (float_to_be velocity) data
      in build_request seq_counter buf CMD_MOTOR_ROTATE (Some data) 9)"

subsection \<open>Parsing frames\<close>

text \<open>
  \<^verbatim>\<open>
  static inline int check_sync(const uint8_t *buf) {
      return buf[0] == FRAME_SYNC1 && buf[1] == FRAME_SYNC2;
  }
  \<close>
\<close>

definition check_sync :: "bytes \<Rightarrow> bool" where
  "check_sync buf \<longleftrightarrow> buf 0 = FRAME_SYNC1 \<and> buf 1 = FRAME_SYNC2"

text \<open>
  \<^verbatim>\<open>protocol_frame_t\<close>. The pointer field \<open>data\<close> is \<open>None\<close> for \<^verbatim>\<open>NULL\<close> and
  \<open>Some k\<close> for \<^verbatim>\<open>&buf[k]\<close>, an address inside the buffer being parsed.
\<close>

record protocol_frame =
  version :: u8
  type :: u8
  seq :: u8
  cmd :: u16
  len :: u16
  data :: "nat option"
  crc :: u16

text \<open>
  \<^verbatim>\<open>
  static inline int parse_frame(const uint8_t *buf, uint16_t buf_len,
                                 protocol_frame_t *frame) {
      if (buf_len < FRAME_MIN_SIZE) return -1;
      if (!check_sync(buf)) return -2;
      frame->version = buf[OFFSET_VER];
      frame->type = buf[OFFSET_TYPE];
      frame->seq = buf[OFFSET_SEQ];
      frame->cmd = be_to_u16(&buf[OFFSET_CMD_H]);
      frame->len = be_to_u16(&buf[OFFSET_LEN_H]);
      if (buf_len < FRAME_HEADER_SIZE + frame->len + FRAME_CRC_SIZE) {
          return -3;
      }
      frame->data = (uint8_t *)&buf[OFFSET_DATA];
      frame->crc = be_to_u16(&buf[OFFSET_DATA + frame->len]);
      return FRAME_HEADER_SIZE + frame->len + FRAME_CRC_SIZE;
  }
  \<close>
  The result is the returned value and the struct behind \<open>frame\<close> as the call leaves
  it; the third argument is the struct as the call finds it.
\<close>

definition parse_frame :: "bytes \<Rightarrow> u16 \<Rightarrow> protocol_frame \<Rightarrow> int \<times> protocol_frame" where
  "parse_frame buf buf_len frame =
     (if unat buf_len < FRAME_MIN_SIZE then (- 1, frame)
      else if \<not> check_sync buf then (- 2, frame)
      else
        let frame = frame\<lparr>version := buf OFFSET_VER\<rparr>;
            frame = frame\<lparr>type := buf OFFSET_TYPE\<rparr>;
            frame = frame\<lparr>seq := buf OFFSET_SEQ\<rparr>;
            frame = frame\<lparr>cmd := be_to_u16 (ptr_at buf OFFSET_CMD_H)\<rparr>;
            frame = frame\<lparr>len := be_to_u16 (ptr_at buf OFFSET_LEN_H)\<rparr>
        in
          if unat buf_len < FRAME_HEADER_SIZE + unat (len frame) + FRAME_CRC_SIZE
          then (- 3, frame)
          else
            let frame = frame\<lparr>data := Some OFFSET_DATA\<rparr>;
                frame = frame\<lparr>crc := be_to_u16 (ptr_at buf (OFFSET_DATA + unat (len frame)))\<rparr>
            in (int (FRAME_HEADER_SIZE + unat (len frame) + FRAME_CRC_SIZE), frame))"

text \<open>The payload a parsed frame refers to: \<open>len\<close> bytes of the buffer from \<open>data\<close>.\<close>

definition payload_view :: "bytes \<Rightarrow> protocol_frame \<Rightarrow> u8 list option" where
  "payload_view buf frame =
     (case data frame of None \<Rightarrow> None | Some k \<Rightarrow> Some (bytes_of (ptr_at buf k) (unat (len frame))))"

subsection \<open>The value of a binary32 pattern\<close>

text \<open>
  The source treats a \<^verbatim>\<open>float\<close> only as its 32 bits. To relate the patterns used
  below to the numbers they stand for, this is the value that IEEE 754 assigns to the
  pattern of a normal binary32 number (sign bit, 8 exponent bits biased by 127,
  23 fraction bits); zeros, subnormals, infinities and NaNs are left out.
\<close>

definition binary32_value :: "u32 \<Rightarrow> real option" where
  "binary32_value w =
     (let e = unat (drop_bit 23 w AND 0xFF);
          m = unat (w AND 0x7FFFFF)
      in if e = 0 \<or> e = 255 then None
         else Some ((if bit w 31 then - 1 else 1) * 2 powi (int e - 127) * (1 + real m / 2 ^ 23)))"

section \<open>Auxiliary facts\<close>

lemmas frame_consts =
  FRAME_SYNC1_def FRAME_SYNC2_def FRAME_VERSION_def
  FRAME_HEADER_SIZE_def FRAME_CRC_SIZE_def FRAME_MIN_SIZE_def
  OFFSET_SYNC1_def OFFSET_SYNC2_def OFFSET_VER_def OFFSET_TYPE_def OFFSET_SEQ_def
  OFFSET_CMD_H_def OFFSET_CMD_L_def OFFSET_LEN_H_def OFFSET_LEN_L_def OFFSET_DATA_def

subsection \<open>Bytes of a word\<close>

lemma xFF_mask: "(0xFF :: 'a::len word) = mask 8"
  by (simp add: mask_eq_exp_minus_1)

lemma low_byte16: "(ucast (x AND 0xFF) :: u8) = ucast x" for x :: u16
  unfolding xFF_mask by (rule bit_word_eqI) (auto simp: bit_simps)

lemma low_byte32: "(ucast (x AND 0xFF) :: u8) = ucast x" for x :: u32
  unfolding xFF_mask by (rule bit_word_eqI) (auto simp: bit_simps)

lemma be_u16_split:
  "push_bit 8 (ucast (ucast (drop_bit 8 c AND 0xFF) :: u8)) OR
   ucast (ucast (c AND 0xFF) :: u8) = c" for c :: u16
  unfolding low_byte16 by (rule bit_word_eqI) (auto simp: bit_simps)

lemma be_u32_split:
  "push_bit 24 (ucast (ucast (drop_bit 24 c AND 0xFF) :: u8)) OR
   push_bit 16 (ucast (ucast (drop_bit 16 c AND 0xFF) :: u8)) OR
   push_bit 8 (ucast (ucast (drop_bit 8 c AND 0xFF) :: u8)) OR
   ucast (ucast (c AND 0xFF) :: u8) = c" for c :: u32
proof (rule bit_word_eqI)
  fix n :: nat
  assume "n < LENGTH(32)"
  then have n32: "n < 32" by simp
  consider "n < 8" | "8 \<le> n" "n < 16" | "16 \<le> n" "n < 24" | "24 \<le> n"
    by linarith
  then show "bit (push_bit 24 (ucast (ucast (drop_bit 24 c AND 0xFF) :: u8)) OR
      push_bit 16 (ucast (ucast (drop_bit 16 c AND 0xFF) :: u8)) OR
      push_bit 8 (ucast (ucast (drop_bit 8 c AND 0xFF) :: u8)) OR
      ucast (ucast (c AND 0xFF) :: u8) :: u32) n = bit c n"
    using n32 unfolding low_byte32 by cases (simp_all add: bit_simps, linarith+)
qed

subsection \<open>The checksum loop and the specification's checksum\<close>

lemma and1_bit0: "(c AND 1 \<noteq> 0) = bit c 0" for c :: u16
  by (simp add: and_one_eq bit_0 mod_2_eq_odd)

lemma crc_bits_spec: "crc_bits n c = (spec_checksum_bit ^^ n) c"
  by (induction n arbitrary: c) (simp_all add: funpow_swap1 spec_checksum_bit_def and1_bit0)

lemma u16_succ: "unat (i + 1) = Suc (unat i)" if "i < n" for i n :: u16
proof -
  from that have "unat i < unat n"
    by (simp add: word_less_nat_alt)
  moreover have "unat n < 2 ^ 16"
    using unsigned_less [of n] by simp
  ultimately have "unat i + 1 < 65536"
    by simp
  then show ?thesis
    by (simp add: unat_word_ariths)
qed

lemma crc16_loop_foldl:
  "i \<le> n \<Longrightarrow> crc16_loop dat n i c =
     foldl (\<lambda>r b. (spec_checksum_bit ^^ 8) (r XOR ucast b)) c (map dat [unat i..<unat n])"
proof (induction dat n i c rule: crc16_loop.induct)
  case (1 dat n i c)
  show ?case
  proof (cases "i < n")
    case True
    then have lt: "unat i < unat n"
      by (simp add: word_less_nat_alt)
    have suc: "unat (i + 1) = Suc (unat i)"
      using True by (rule u16_succ)
    with lt have le: "i + 1 \<le> n"
      by (simp add: word_le_nat_alt)
    have "crc16_loop dat n i c =
        crc16_loop dat n (i + 1) (crc_bits 8 (c XOR ucast (dat (unat i))))"
      using True by (subst crc16_loop.simps) simp
    also have "\<dots> = foldl (\<lambda>r b. (spec_checksum_bit ^^ 8) (r XOR ucast b))
        (crc_bits 8 (c XOR ucast (dat (unat i)))) (map dat [unat (i + 1)..<unat n])"
      using "1.IH" [OF True le] .
    also have "\<dots> = foldl (\<lambda>r b. (spec_checksum_bit ^^ 8) (r XOR ucast b)) c
        (map dat [unat i..<unat n])"
      using lt by (simp add: suc upt_conv_Cons crc_bits_spec)
    finally show ?thesis .
  next
    case False
    with "1.prems" have "i = n" by simp
    then show ?thesis by (subst crc16_loop.simps) simp
  qed
qed

text \<open>The loop of the source computes the checksum of the specification.\<close>

lemma crc16_modbus_spec: "crc16_modbus dat n = spec_checksum (bytes_of dat (unat n))"
  by (simp add: crc16_modbus_def spec_checksum_def bytes_of_def crc16_loop_foldl)

lemma crc16_modbus_cong:
  assumes "\<And>i. i < unat n \<Longrightarrow> p i = q i"
  shows "crc16_modbus p n = crc16_modbus q n"
proof -
  from assms have "bytes_of p (unat n) = bytes_of q (unat n)"
    by (simp add: bytes_of_def)
  then show ?thesis
    by (simp add: crc16_modbus_spec)
qed

subsection \<open>Big-endian values\<close>

lemma base256: "n mod (256 * m) = (n div m mod 256) * m + n mod m" for n :: nat
  by (simp add: mod_mult2_eq mult.commute)

lemma digits4: "n div 2 ^ 24 * 2 ^ 24 + n div 2 ^ 16 mod 256 * 2 ^ 16
     + n div 2 ^ 8 mod 256 * 2 ^ 8 + n mod 256 = n" for n :: nat
proof -
  have a: "n mod 2 ^ 24 = n div 2 ^ 16 mod 256 * 2 ^ 16 + n mod 2 ^ 16"
    using base256 [of n "2 ^ 16"] by simp
  have b: "n mod 2 ^ 16 = n div 2 ^ 8 mod 256 * 2 ^ 8 + n mod 256"
    using base256 [of n "2 ^ 8"] by simp
  have "n div 2 ^ 24 * 2 ^ 24 + n div 2 ^ 16 mod 256 * 2 ^ 16
     + n div 2 ^ 8 mod 256 * 2 ^ 8 + n mod 256 = n div 2 ^ 24 * 2 ^ 24 + n mod 2 ^ 24"
    unfolding a b by (simp only: add.assoc)
  then show ?thesis
    by (simp only: div_mult_mod_eq)
qed

lemma byte_val: "unat (ucast (drop_bit k val) :: u8) = unat val div 2 ^ k mod 256" for val :: u32
proof -
  have "unat (ucast (drop_bit k val) :: u8) = take_bit 8 (drop_bit k (unat val))"
    by (simp only: unsigned_ucast_eq unat_drop_bit_eq len_num0 len_bit0 len_num1 mult_1_right) simp
  then show ?thesis
    by (simp add: drop_bit_eq_div take_bit_eq_mod)
qed

lemma float_to_be_digits: "unat (float_to_be val out 0) * 2 ^ 24 + unat (float_to_be val out 1) * 2 ^ 16
   + unat (float_to_be val out 2) * 2 ^ 8 + unat (float_to_be val out 3) = unat val"
proof -
  have "unat val < 2 ^ 32" using unsigned_less [of val] by simp
  then have "unat val div 2 ^ 24 < 256"
    by (simp add: less_mult_imp_div_less)
  then have b0: "unat (float_to_be val out 0) = unat val div 2 ^ 24"
    by (simp add: float_to_be_def low_byte32 byte_val)
  have b1: "unat (float_to_be val out 1) = unat val div 2 ^ 16 mod 256"
    by (simp add: float_to_be_def low_byte32 byte_val)
  have b2: "unat (float_to_be val out 2) = unat val div 2 ^ 8 mod 256"
    by (simp add: float_to_be_def low_byte32 byte_val)
  have b3: "unat (float_to_be val out 3) = unat val mod 256"
    using byte_val [of 0 val] by (simp add: float_to_be_def low_byte32)
  show ?thesis
    unfolding b0 b1 b2 b3 by (rule digits4)
qed

lemma or_add: "push_bit 8 (ucast a :: u16) OR ucast b = push_bit 8 (ucast a) + ucast b" for a b :: u8
  by (rule disjunctive_add_eq_or [symmetric]) (auto simp: bit_eq_iff bit_simps dest: bit_imp_le_length)

lemma unat_ucast_8_16: "unat (ucast x :: u16) = unat x" for x :: u8
proof -
  have "unat x < 2 ^ 8"
    using unsigned_less [of x] by simp
  then show ?thesis
    by (simp add: unsigned_ucast_eq take_bit_eq_mod)
qed

lemma be_to_u16_val: "unat (be_to_u16 p) = unat (p 0) * 256 + unat (p 1)"
proof -
  have a: "unat (p 0) < 256" using unsigned_less [of "p 0"] by simp
  have b: "unat (p 1) < 256" using unsigned_less [of "p 1"] by simp
  show ?thesis
    unfolding be_to_u16_def or_add using a b
    by (simp add: unat_word_ariths push_bit_eq_mult unat_ucast_8_16)
qed

lemma be_to_u16_uint: "uint (be_to_u16 p) = uint (p 0) * 256 + uint (p 1)"
proof -
  have "uint (be_to_u16 p) = int (unat (be_to_u16 p))"
    by simp
  also have "\<dots> = int (unat (p 0) * 256 + unat (p 1))"
    by (simp only: be_to_u16_val)
  finally show ?thesis
    by simp
qed

subsection \<open>The return code of the parser\<close>

lemma parse_frame_code:
  "fst (parse_frame buf buf_len f) =
     (if unat buf_len < 11 then - 1
      else if \<not> (buf 0 = 0xAA \<and> buf 1 = 0x55) then - 2
      else if unat buf_len < 9 + (unat (buf 7) * 256 + unat (buf 8)) + 2 then - 3
      else 9 + (int (unat (buf 7)) * 256 + int (unat (buf 8))) + 2)"
  by (simp add: parse_frame_def Let_def frame_consts check_sync_def be_to_u16_val be_to_u16_uint ptr_at_def)

subsection \<open>What a built frame holds\<close>

lemma build_frame_ret: "fst (build_frame buf t s c d dl) = 9 + int (unat dl) + 2"
  by (simp add: build_frame_def Let_def frame_consts)

lemma build_frame_header:
  "snd (build_frame buf t s c d dl) 0 = 0xAA"
  "snd (build_frame buf t s c d dl) 1 = 0x55"
  "snd (build_frame buf t s c d dl) (Suc 0) = 0x55"
  "snd (build_frame buf t s c d dl) 2 = 0x10"
  "snd (build_frame buf t s c d dl) 3 = t"
  "snd (build_frame buf t s c d dl) 4 = s"
  "snd (build_frame buf t s c d dl) 5 = ucast (drop_bit 8 c)"
  "snd (build_frame buf t s c d dl) 6 = ucast c"
  "snd (build_frame buf t s c d dl) 7 = ucast (drop_bit 8 dl)"
  "snd (build_frame buf t s c d dl) 8 = ucast dl"
  by (simp_all add: build_frame_def Let_def frame_consts write_at_def memcpy_def low_byte16
      split: option.split)

lemma build_frame_payload:
  "i < unat dl \<Longrightarrow> snd (build_frame buf t s c (Some p) dl) (9 + i) = p i"
  by (auto simp add: build_frame_def Let_def frame_consts write_at_def memcpy_def ptr_at_def
      word_greater_zero_iff unat_eq_0)

lemma build_frame_payload_null:
  "i < unat dl \<Longrightarrow> snd (build_frame buf t s c None dl) (9 + i) = buf (9 + i)"
  by (auto simp add: build_frame_def Let_def frame_consts)

lemma build_frame_beyond:
  "9 + unat dl + 2 \<le> i \<Longrightarrow> snd (build_frame buf t s c d dl) i = buf i"
  by (auto simp add: build_frame_def Let_def frame_consts write_at_def memcpy_def ptr_at_def
      split: option.split)

lemma crc_len_le: "unat (7 + dl) \<le> 7 + unat dl" for dl :: u16
  by (simp add: unat_word_ariths) 

lemma build_frame_crc:
  "snd (build_frame buf t s c d dl) (9 + unat dl) =
     ucast (drop_bit 8 (crc16_modbus (ptr_at (snd (build_frame buf t s c d dl)) 2) (7 + dl)))"
  "snd (build_frame buf t s c d dl) (9 + unat dl + 1) =
     ucast (crc16_modbus (ptr_at (snd (build_frame buf t s c d dl)) 2) (7 + dl))"
proof -
  define body where "body = (let buf = buf(OFFSET_SYNC1 := FRAME_SYNC1,
                    OFFSET_SYNC2 := FRAME_SYNC2,
                    OFFSET_VER := FRAME_VERSION,
                    OFFSET_TYPE := t,
                    OFFSET_SEQ := s,
                    OFFSET_CMD_H := ucast (drop_bit 8 c AND 0xFF),
                    OFFSET_CMD_L := ucast (c AND 0xFF),
                    OFFSET_LEN_H := ucast (drop_bit 8 dl AND 0xFF),
                    OFFSET_LEN_L := ucast (dl AND 0xFF)) in
          (case d of
                   None \<Rightarrow> buf
                 | Some d \<Rightarrow>
                     if dl > 0
                     then write_at OFFSET_DATA (\<lambda>dst. memcpy dst d (unat dl)) buf
                     else buf))"
  define k where "k = crc16_modbus (ptr_at body OFFSET_VER) (7 + dl)"
  have bf: "snd (build_frame buf t s c d dl) =
      body(9 + unat dl := ucast (drop_bit 8 k), 9 + unat dl + 1 := ucast k)"
    by (simp add: build_frame_def Let_def body_def k_def low_byte16 OFFSET_DATA_def)
  have "crc16_modbus (ptr_at (snd (build_frame buf t s c d dl)) 2) (7 + dl) = k"
    unfolding k_def bf OFFSET_VER_def
    using crc_len_le [of dl]
    by (intro crc16_modbus_cong) (simp add: ptr_at_def)
  then show
    "snd (build_frame buf t s c d dl) (9 + unat dl) =
       ucast (drop_bit 8 (crc16_modbus (ptr_at (snd (build_frame buf t s c d dl)) 2) (7 + dl)))"
    "snd (build_frame buf t s c d dl) (9 + unat dl + 1) =
       ucast (crc16_modbus (ptr_at (snd (build_frame buf t s c d dl)) 2) (7 + dl))"
    by (simp_all add: bf)
qed

lemma build_frame_wire_format:
  assumes "unat dl \<le> 65528"
  shows "fst (build_frame buf t s c d dl) = 9 + int (unat dl) + 2"
    and "snd (build_frame buf t s c d dl) 0 = 0xAA"
    and "snd (build_frame buf t s c d dl) 1 = 0x55"
    and "snd (build_frame buf t s c d dl) 2 = 0x10"
    and "snd (build_frame buf t s c d dl) (9 + unat dl) =
      ucast (drop_bit 8 (spec_checksum (bytes_of (ptr_at (snd (build_frame buf t s c d dl)) 2) (7 + unat dl))))"
    and "snd (build_frame buf t s c d dl) (9 + unat dl + 1) =
      ucast (spec_checksum (bytes_of (ptr_at (snd (build_frame buf t s c d dl)) 2) (7 + unat dl)))"
proof -
  have "unat (7 + dl) = 7 + unat dl"
    using assms by (simp add: unat_word_ariths)
  then show "snd (build_frame buf t s c d dl) (9 + unat dl) =
      ucast (drop_bit 8 (spec_checksum (bytes_of (ptr_at (snd (build_frame buf t s c d dl)) 2) (7 + unat dl))))"
    and "snd (build_frame buf t s c d dl) (9 + unat dl + 1) =
      ucast (spec_checksum (bytes_of (ptr_at (snd (build_frame buf t s c d dl)) 2) (7 + unat dl)))"
    using build_frame_crc [of buf t s c d dl] by (simp_all add: crc16_modbus_spec)
qed (simp_all add: build_frame_ret build_frame_header)


subsection \<open>Lists of bytes\<close>

lemma length_bytes_of: "length (bytes_of p n) = n"
  by (simp add: bytes_of_def)

lemma nth_bytes_of: "i < n \<Longrightarrow> bytes_of p n ! i = p i"
  by (simp add: bytes_of_def)

lemma bytes_of_Suc: "bytes_of q (Suc n) = bytes_of q n @ [q n]"
  by (simp add: bytes_of_def)

lemma take_bytes_of: "m \<le> n \<Longrightarrow> take m (bytes_of q n) = bytes_of q m"
  by (rule nth_equalityI) (simp_all add: length_bytes_of nth_bytes_of)

lemma bytes_of_ptr_at: "bytes_of (ptr_at q k) n = drop k (bytes_of q (k + n))"
  by (rule nth_equalityI) (simp_all add: length_bytes_of nth_bytes_of ptr_at_def)


subsection \<open>The bytes of a built frame\<close>

lemma build_frame_below:
  assumes "j < 9 + unat dl"
  shows "snd (build_frame buf t s c (Some p) dl) j =
    ([0xAA, 0x55, 0x10, t, s, ucast (drop_bit 8 c), ucast c,
        ucast (drop_bit 8 dl), ucast dl] @ bytes_of p (unat dl)) ! j"
proof (cases "j < 9")
  case True
  then consider "j = 0" | "j = 1" | "j = 2" | "j = 3" | "j = 4" | "j = 5" | "j = 6" | "j = 7" | "j = 8"
    by linarith
  then show ?thesis
    by cases (simp_all add: build_frame_header)
next
  case False
  with assms have less: "j - 9 < unat dl"
    by simp
  from False have "snd (build_frame buf t s c (Some p) dl) j =
      snd (build_frame buf t s c (Some p) dl) (9 + (j - 9))"
    by simp
  also have "\<dots> = p (j - 9)"
    using less by (rule build_frame_payload)
  also have "\<dots> = bytes_of p (unat dl) ! (j - 9)"
    using less by (simp add: nth_bytes_of)
  also have "\<dots> = ([0xAA, 0x55, 0x10, t, s, ucast (drop_bit 8 c), ucast c,
        ucast (drop_bit 8 dl), ucast dl] @ bytes_of p (unat dl)) ! j"
    using False by (simp add: nth_append eval_nat_numeral)
  finally show ?thesis .
qed

lemma build_frame_prefix:
  "bytes_of (snd (build_frame buf t s c (Some p) dl)) (9 + unat dl) =
    [0xAA, 0x55, 0x10, t, s, ucast (drop_bit 8 c), ucast c,
        ucast (drop_bit 8 dl), ucast dl] @ bytes_of p (unat dl)"
  by (rule nth_equalityI) (simp_all add: length_bytes_of nth_bytes_of build_frame_below)

lemma build_frame_checksummed:
  assumes "m \<le> unat dl"
  shows "bytes_of (ptr_at (snd (build_frame buf t s c (Some p) dl)) 2) (7 + m) =
     [0x10, t, s, ucast (drop_bit 8 c), ucast c, ucast (drop_bit 8 dl), ucast dl] @
     bytes_of p m"
proof -
  have "bytes_of (ptr_at (snd (build_frame buf t s c (Some p) dl)) 2) (7 + m) =
      drop 2 (bytes_of (snd (build_frame buf t s c (Some p) dl)) (9 + m))"
    by (simp add: bytes_of_ptr_at)
  also have "\<dots> = drop 2 (take (9 + m) (bytes_of (snd (build_frame buf t s c (Some p) dl)) (9 + unat dl)))"
    using assms by (simp add: take_bytes_of)
  also have "\<dots> = [0x10, t, s, ucast (drop_bit 8 c), ucast c, ucast (drop_bit 8 dl), ucast dl] @
     take m (bytes_of p (unat dl))"
    unfolding build_frame_prefix by (simp add: eval_nat_numeral)
  finally show ?thesis
    using assms by (simp add: take_bytes_of)
qed

lemma build_frame_bytes:
  assumes "unat dl \<le> 65528"
  shows "bytes_of (snd (build_frame buf t s c (Some p) dl)) (9 + unat dl + 2) =
     [0xAA, 0x55, 0x10, t, s, ucast (drop_bit 8 c), ucast c, ucast (drop_bit 8 dl), ucast dl] @
     bytes_of p (unat dl) @
     [ucast (drop_bit 8 (spec_checksum
        ([0x10, t, s, ucast (drop_bit 8 c), ucast c, ucast (drop_bit 8 dl), ucast dl] @
         bytes_of p (unat dl)))),
      ucast (spec_checksum
        ([0x10, t, s, ucast (drop_bit 8 c), ucast c, ucast (drop_bit 8 dl), ucast dl] @
         bytes_of p (unat dl)))]"
    (is "bytes_of ?b _ = ?hdr @ _ @ [?hi, ?lo]")
proof -
  have pre: "bytes_of ?b (9 + unat dl) = ?hdr @ bytes_of p (unat dl)"
    by (rule build_frame_prefix)
  have "9 + unat dl + 2 = Suc (Suc (9 + unat dl))"
    by simp
  then have "bytes_of ?b (9 + unat dl + 2) =
      bytes_of ?b (9 + unat dl) @ [?b (9 + unat dl), ?b (9 + unat dl + 1)]"
    by (simp only: bytes_of_Suc) simp
  also have "\<dots> = ?hdr @ bytes_of p (unat dl) @ [?hi, ?lo]"
    using build_frame_wire_format(5,6) [OF assms, of buf t s c "Some p"]
    by (simp only: pre build_frame_checksummed [OF order_refl] append_assoc)
  finally show ?thesis .
qed

lemma motor_rotate_payload:
  "bytes_of (write_at 5 (float_to_be velocity)
      (write_at 1 (float_to_be angle) ((array_of (replicate 9 0))(0 := motor_id)))) 9 =
   [motor_id,
    ucast (drop_bit 24 angle), ucast (drop_bit 16 angle), ucast (drop_bit 8 angle), ucast angle,
    ucast (drop_bit 24 velocity), ucast (drop_bit 16 velocity), ucast (drop_bit 8 velocity),
    ucast velocity]"
  by (simp add: bytes_of_def write_at_def ptr_at_def float_to_be_def array_of_def low_byte32
      upt_rec [of _ "numeral _"])


text \<open>When \<open>7 + data_len\<close> is 65536, \<open>crc_len\<close> is 0 and the stored checksum is that of no bytes.\<close>

lemma build_frame_crc_len_wraps:
  "snd (build_frame buf t s c d 65529) (9 + 65529) = 0xFF \<and>
   snd (build_frame buf t s c d 65529) (9 + 65529 + 1) = 0xFF"
  using build_frame_crc [of buf t s c d 65529]
  by (simp add: crc16_modbus_def crc16_loop.simps)


subsection \<open>Outcomes of the parser\<close>

lemma parse_frame_too_short: "unat buf_len < 11 \<Longrightarrow> parse_frame buf buf_len f = (- 1, f)"
  by (simp add: parse_frame_def frame_consts)

lemma parse_frame_bad_sync:
  "11 \<le> unat buf_len \<Longrightarrow> \<not> (buf 0 = 0xAA \<and> buf 1 = 0x55) \<Longrightarrow> parse_frame buf buf_len f = (- 2, f)"
  by (auto simp add: parse_frame_def frame_consts check_sync_def)

lemma parse_frame_incomplete:
  assumes "11 \<le> unat buf_len" "buf 0 = 0xAA" "buf 1 = 0x55"
    and "unat buf_len < 9 + unat (be_to_u16 (ptr_at buf 7)) + 2"
  shows "parse_frame buf buf_len f =
    (- 3, f\<lparr>version := buf 2, type := buf 3, seq := buf 4, cmd := be_to_u16 (ptr_at buf 5),
       len := be_to_u16 (ptr_at buf 7)\<rparr>)"
  using assms by (simp add: parse_frame_def Let_def frame_consts check_sync_def)

lemma parse_frame_ok:
  assumes "11 \<le> unat buf_len" "buf 0 = 0xAA" "buf 1 = 0x55"
    and "9 + unat (be_to_u16 (ptr_at buf 7)) + 2 \<le> unat buf_len"
  shows "parse_frame buf buf_len f =
    (9 + int (unat (be_to_u16 (ptr_at buf 7))) + 2,
     f\<lparr>version := buf 2, type := buf 3, seq := buf 4, cmd := be_to_u16 (ptr_at buf 5),
       len := be_to_u16 (ptr_at buf 7), data := Some 9,
       crc := be_to_u16 (ptr_at buf (9 + unat (be_to_u16 (ptr_at buf 7))))\<rparr>)"
  using assms by (simp add: parse_frame_def Let_def frame_consts check_sync_def)


text \<open>Parsing what \<open>build_frame\<close> wrote, told its exact length.\<close>

lemma build_parse_roundtrip:
  assumes "unat dl \<le> 65524"
  shows "parse_frame (snd (build_frame buf t s c (Some p) dl)) (word_of_nat (9 + unat dl + 2)) f =
    (9 + int (unat dl) + 2,
     f\<lparr>version := 0x10, type := t, seq := s, cmd := c, len := dl, data := Some 9,
       crc := crc16_modbus (ptr_at (snd (build_frame buf t s c (Some p) dl)) 2) (7 + dl)\<rparr>)"
    (is "parse_frame ?b ?n f = _")
proof -
  have n: "unat (?n :: u16) = 9 + unat dl + 2"
    using assms by (simp only: unat_of_nat) simp
  have len: "be_to_u16 (ptr_at ?b 7) = dl"
    by (simp add: be_to_u16_def ptr_at_def build_frame_header be_u16_split [unfolded low_byte16])
  have cmd: "be_to_u16 (ptr_at ?b 5) = c"
    by (simp add: be_to_u16_def ptr_at_def build_frame_header be_u16_split [unfolded low_byte16])
  have crc: "be_to_u16 (ptr_at ?b (9 + unat dl)) = crc16_modbus (ptr_at ?b 2) (7 + dl)"
    using build_frame_crc [of buf t s c "Some p" dl]
    by (simp add: be_to_u16_def ptr_at_def be_u16_split [unfolded low_byte16])
  have "parse_frame ?b ?n f =
    (9 + int (unat (be_to_u16 (ptr_at ?b 7))) + 2,
     f\<lparr>version := ?b 2, type := ?b 3, seq := ?b 4, cmd := be_to_u16 (ptr_at ?b 5),
       len := be_to_u16 (ptr_at ?b 7), data := Some 9,
       crc := be_to_u16 (ptr_at ?b (9 + unat (be_to_u16 (ptr_at ?b 7))))\<rparr>)"
  proof (rule parse_frame_ok)
    show "11 \<le> unat (?n :: u16)"
      unfolding n by simp
    show "?b 0 = 0xAA" and "?b 1 = 0x55"
      by (rule build_frame_header)+
    show "9 + unat (be_to_u16 (ptr_at ?b 7)) + 2 \<le> unat (?n :: u16)"
      unfolding n len by simp
  qed
  then show ?thesis
    by (simp only: len cmd crc build_frame_header)
qed


text \<open>
  A frame with 65525 payload bytes is 65536 bytes long, more than any \<open>buf_len\<close> can say.
\<close>

lemma parse_frame_of_65525_frame:
  "fst (parse_frame (snd (build_frame buf t s c (Some p) 65525)) buf_len f) =
     (if unat buf_len < 11 then - 1 else - 3)"
proof -
  have "unat buf_len < 65536"
    using unsigned_less [of buf_len] by simp
  then show ?thesis
    by (simp add: parse_frame_code build_frame_header)
qed

subsection \<open>The specification's checksum, one byte further\<close>

lemma spec_checksum_snoc:
  "spec_checksum (bs @ [b]) = (spec_checksum_bit ^^ 8) (spec_checksum bs XOR ucast b)"
  by (simp add: spec_checksum_def)

lemma spec_checksum_bits_zero:
  "(\<And>k. k < n \<Longrightarrow> \<not> bit x k) \<Longrightarrow> (spec_checksum_bit ^^ n) x = drop_bit n x"
proof (induction n)
  case 0
  show ?case by simp
next
  case (Suc n)
  then have ih: "(spec_checksum_bit ^^ n) x = drop_bit n x"
    by simp
  have low: "\<not> bit (drop_bit n x) 0"
    using Suc.prems [of n] by (simp add: bit_drop_bit_eq)
  have "(spec_checksum_bit ^^ Suc n) x = spec_checksum_bit (drop_bit n x)"
    by (simp only: funpow.simps o_apply ih)
  also have "\<dots> = drop_bit 1 (drop_bit n x)"
    using low by (simp only: spec_checksum_bit_def if_False)
  also have "\<dots> = drop_bit (Suc n) x"
    by (simp add: drop_bit_drop_bit)
  finally show ?case .
qed

lemma spec_checksum_low_byte:
  "(spec_checksum_bit ^^ 8) (r XOR ucast (ucast r :: u8)) = drop_bit 8 r"
proof -
  have "(spec_checksum_bit ^^ 8) (r XOR ucast (ucast r :: u8)) = drop_bit 8 (r XOR ucast (ucast r :: u8))"
    by (rule spec_checksum_bits_zero) (auto simp: bit_simps)
  also have "\<dots> = drop_bit 8 r"
    by (rule bit_word_eqI) (auto simp: bit_simps)
  finally show ?thesis .
qed

lemma drop_bit8_not_FFFF: "drop_bit 8 r \<noteq> 0xFFFF" for r :: u16
proof
  assume "drop_bit 8 r = 0xFFFF"
  then have "bit (drop_bit 8 r) 15 = bit (0xFFFF :: u16) 15"
    by simp
  then have "bit r 23"
    by (simp add: bit_simps)
  then show False
    by (auto dest: bit_imp_le_length)
qed


subsection \<open>The patterns of 90.0 and 10.0\<close>

lemma binary32_examples:
  "binary32_value 0x42B40000 = Some 90 \<and> binary32_value 0x41200000 = Some 10"
  by (simp add: binary32_value_def Let_def bit_numeral_word_iff power_int_def)


text \<open>
  The first frame after start-up (\<open>_seq_counter\<close> is 0) for motor 1, angle 90.0, velocity
  10.0, with its checksum as numbers.
\<close>

lemma build_motor_rotate_first_frame:
  "bytes_of (snd (fst (build_motor_rotate seq_counter_init (array_of []) 0x01 0x42B40000 0x41200000))) 20 =
     [0xAA, 0x55, 0x10, 0x00, 0x00, 0x30, 0x01, 0x00, 0x09,
      0x01, 0x42, 0xB4, 0x00, 0x00, 0x41, 0x20, 0x00, 0x00, 0xA4, 0xB6]"
  by code_simp


section \<open>Claims\<close>

subsection \<open>C1: round trip of encoding and decoding\<close>

text \<open>
  C1, for payloads of up to 65524 bytes. For every frame type, sequence number,
  command code and payload of length at most 65524 (given by a non-null pointer),
  \<open>parse_frame\<close> applied to the buffer written by \<open>build_frame\<close>, with \<open>buf_len\<close> the
  frame's length 9 + len + 2, returns 9 + len + 2 and leaves a frame whose type, seq,
  cmd and len are the encoder's inputs and whose payload view holds the encoder's
  payload bytes. The bound 65524 is the largest payload whose frame length still fits
  the 16-bit \<open>buf_len\<close>.
\<close>

theorem build_parse_roundtrip_upto_65524:
  assumes "unat dl \<le> 65524"
  shows "fst (parse_frame (snd (build_frame buf t s c (Some p) dl)) (word_of_nat (9 + unat dl + 2)) f) =
           9 + int (unat dl) + 2 \<and>
         type (snd (parse_frame (snd (build_frame buf t s c (Some p) dl)) (word_of_nat (9 + unat dl + 2)) f)) = t \<and>
         seq (snd (parse_frame (snd (build_frame buf t s c (Some p) dl)) (word_of_nat (9 + unat dl + 2)) f)) = s \<and>
         cmd (snd (parse_frame (snd (build_frame buf t s c (Some p) dl)) (word_of_nat (9 + unat dl + 2)) f)) = c \<and>
         len (snd (parse_frame (snd (build_frame buf t s c (Some p) dl)) (word_of_nat (9 + unat dl + 2)) f)) = dl \<and>
         payload_view (snd (build_frame buf t s c (Some p) dl))
           (snd (parse_frame (snd (build_frame buf t s c (Some p) dl)) (word_of_nat (9 + unat dl + 2)) f)) =
           Some (bytes_of p (unat dl))"
  unfolding build_parse_roundtrip [OF assms]
  by (simp add: payload_view_def bytes_of_def ptr_at_def build_frame_payload)

text \<open>The theorem at a Nack frame for sequence 7, command 0x3001, error code 3.\<close>

theorem build_parse_roundtrip_witness:
  "fst (parse_frame (snd (build_frame (array_of []) TYPE_NACK 7 CMD_MOTOR_ROTATE (Some (array_of [3])) 1)) 12
     \<lparr>version = 0, type = 0, seq = 0, cmd = 0, len = 0, data = None, crc = 0\<rparr>) = 12 \<and>
   type (snd (parse_frame (snd (build_frame (array_of []) TYPE_NACK 7 CMD_MOTOR_ROTATE (Some (array_of [3])) 1)) 12
     \<lparr>version = 0, type = 0, seq = 0, cmd = 0, len = 0, data = None, crc = 0\<rparr>)) = 4 \<and>
   seq (snd (parse_frame (snd (build_frame (array_of []) TYPE_NACK 7 CMD_MOTOR_ROTATE (Some (array_of [3])) 1)) 12
     \<lparr>version = 0, type = 0, seq = 0, cmd = 0, len = 0, data = None, crc = 0\<rparr>)) = 7 \<and>
   cmd (snd (parse_frame (snd (build_frame (array_of []) TYPE_NACK 7 CMD_MOTOR_ROTATE (Some (array_of [3])) 1)) 12
     \<lparr>version = 0, type = 0, seq = 0, cmd = 0, len = 0, data = None, crc = 0\<rparr>)) = 0x3001 \<and>
   payload_view (snd (build_frame (array_of []) TYPE_NACK 7 CMD_MOTOR_ROTATE (Some (array_of [3])) 1))
     (snd (parse_frame (snd (build_frame (array_of []) TYPE_NACK 7 CMD_MOTOR_ROTATE (Some (array_of [3])) 1)) 12
     \<lparr>version = 0, type = 0, seq = 0, cmd = 0, len = 0, data = None, crc = 0\<rparr>)) = Some [3]"
  using build_parse_roundtrip_upto_65524 [of 1 "array_of []" TYPE_NACK 7 CMD_MOTOR_ROTATE "array_of [3]"
    "\<lparr>version = 0, type = 0, seq = 0, cmd = 0, len = 0, data = None, crc = 0\<rparr>"]
  by (simp add: bytes_of_def array_of_def TYPE_NACK_def CMD_MOTOR_ROTATE_def)

text \<open>
  C1 as stated fails for a payload of 65525 bytes. \<open>build_frame\<close> returns 65536 for it.
  Converted to \<^verbatim>\<open>uint16_t\<close> that length is 0, and \<open>parse_frame\<close> answers -1; with the
  largest possible \<open>buf_len\<close>, 65535, it answers -3.
\<close>

theorem roundtrip_counterexample_65525:
  "fst (build_frame (array_of []) TYPE_REQUEST 0 CMD_MOTOR_ROTATE (Some (array_of [])) 65525) = 65536 \<and>
   fst (parse_frame (snd (build_frame (array_of []) TYPE_REQUEST 0 CMD_MOTOR_ROTATE (Some (array_of [])) 65525))
     (word_of_int (fst (build_frame (array_of []) TYPE_REQUEST 0 CMD_MOTOR_ROTATE (Some (array_of [])) 65525)))
     \<lparr>version = 0, type = 0, seq = 0, cmd = 0, len = 0, data = None, crc = 0\<rparr>) = - 1 \<and>
   fst (parse_frame (snd (build_frame (array_of []) TYPE_REQUEST 0 CMD_MOTOR_ROTATE (Some (array_of [])) 65525))
     65535
     \<lparr>version = 0, type = 0, seq = 0, cmd = 0, len = 0, data = None, crc = 0\<rparr>) = - 3"
  by (simp add: parse_frame_of_65525_frame build_frame_ret)

subsection \<open>C2: the encoder and the capacity of its buffer\<close>

text \<open>
  C2, as the code has it. \<open>build_frame\<close> is not told the capacity of \<open>buf\<close> and
  checks none: every call returns 9 + data_len + 2, a positive number and never an error, and
  writes nothing at or beyond offset 9 + data_len + 2. That \<open>buf\<close> has room for these
  bytes is left to the caller.
\<close>

theorem build_frame_never_fails:
  "fst (build_frame buf t s c d dl) = 9 + int (unat dl) + 2 \<and>
   0 < fst (build_frame buf t s c d dl) \<and>
   (\<forall>i\<ge>9 + unat dl + 2. snd (build_frame buf t s c d dl) i = buf i)"
  by (simp add: build_frame_ret build_frame_beyond add_pos_nonneg)

text \<open>The theorem at an Ack-sized frame: 11 is returned and offset 11 is untouched.\<close>

theorem build_frame_never_fails_witness:
  "fst (build_frame (array_of [0x11, 0x22, 0x33, 0x44]) 0 0 0 None 0) = 11 \<and>
   snd (build_frame (array_of [0x11, 0x22, 0x33, 0x44]) 0 0 0 None 0) 11 = 0"
  using build_frame_never_fails [of "array_of [0x11, 0x22, 0x33, 0x44]" 0 0 0 None 0]
  by (simp add: array_of_def)

text \<open>
  C2 as stated fails: called on an array of 4 bytes for a frame of 11, the function
  returns 11 and has written all 11 bytes, 7 of them past the end of the array.
\<close>

theorem build_frame_capacity_counterexample:
  "length [0x11, 0x22, 0x33, 0x44 :: u8] < 9 + unat (0 :: u16) + 2 \<and>
   fst (build_frame (array_of [0x11, 0x22, 0x33, 0x44]) TYPE_ACK 7 CMD_MOTOR_ROTATE None 0) = 11 \<and>
   bytes_of (snd (build_frame (array_of [0x11, 0x22, 0x33, 0x44]) TYPE_ACK 7 CMD_MOTOR_ROTATE None 0)) 11 =
     [0xAA, 0x55, 0x10, 0x03, 0x07, 0x30, 0x01, 0x00, 0x00, 0xF2, 0xE1]"
  by code_simp

subsection \<open>C3: the order of the decoder's checks\<close>

text \<open>
  C3. For every buffer and \<open>buf_len\<close>: \<open>parse_frame\<close> returns -1 exactly when
  \<open>buf_len\<close> is below 11; otherwise it returns -2 exactly when the first two bytes are
  not 0xAA, 0x55; otherwise it returns -3 exactly when \<open>buf_len\<close> is below 9 + len + 2
  for the big-endian len field at offsets 7 and 8; otherwise it succeeds with
  9 + len + 2.
\<close>

theorem parse_frame_check_order:
  "(fst (parse_frame buf buf_len f) = - 1 \<longleftrightarrow> unat buf_len < 11) \<and>
   (11 \<le> unat buf_len \<longrightarrow>
      (fst (parse_frame buf buf_len f) = - 2 \<longleftrightarrow> \<not> (buf 0 = 0xAA \<and> buf 1 = 0x55))) \<and>
   (11 \<le> unat buf_len \<and> buf 0 = 0xAA \<and> buf 1 = 0x55 \<longrightarrow>
      (fst (parse_frame buf buf_len f) = - 3 \<longleftrightarrow>
         unat buf_len < 9 + (unat (buf 7) * 256 + unat (buf 8)) + 2)) \<and>
   (11 \<le> unat buf_len \<and> buf 0 = 0xAA \<and> buf 1 = 0x55 \<and>
    9 + (unat (buf 7) * 256 + unat (buf 8)) + 2 \<le> unat buf_len \<longrightarrow>
      fst (parse_frame buf buf_len f) = 9 + (int (unat (buf 7)) * 256 + int (unat (buf 8))) + 2)"
proof -
  have "0 \<le> uint (buf 7) * 256 + uint (buf 8)"
    by simp
  then show ?thesis
    unfolding parse_frame_code by (simp; linarith)
qed

text \<open>The four outcomes, each on a buffer of eleven bytes.\<close>

theorem parse_frame_check_order_witness:
  "fst (parse_frame (array_of [0xAA, 0x55, 0x10, 0x03, 0x07, 0x30, 0x01, 0x00, 0x00, 0x12, 0x34]) 11
      \<lparr>version = 0, type = 0, seq = 0, cmd = 0, len = 0, data = None, crc = 0\<rparr>) = 11 \<and>
   fst (parse_frame (array_of [0xAA, 0x55, 0x10, 0x03, 0x07, 0x30, 0x01, 0x00, 0x00, 0x12, 0x34]) 10
      \<lparr>version = 0, type = 0, seq = 0, cmd = 0, len = 0, data = None, crc = 0\<rparr>) = - 1 \<and>
   fst (parse_frame (array_of [0xAA, 0x54, 0x10, 0x03, 0x07, 0x30, 0x01, 0x00, 0x00, 0x12, 0x34]) 11
      \<lparr>version = 0, type = 0, seq = 0, cmd = 0, len = 0, data = None, crc = 0\<rparr>) = - 2 \<and>
   fst (parse_frame (array_of [0xAA, 0x55, 0x10, 0x03, 0x07, 0x30, 0x01, 0x00, 0x01, 0x12, 0x34]) 11
      \<lparr>version = 0, type = 0, seq = 0, cmd = 0, len = 0, data = None, crc = 0\<rparr>) = - 3"
  using
    parse_frame_check_order [of "array_of [0xAA, 0x55, 0x10, 0x03, 0x07, 0x30, 0x01, 0x00, 0x00, 0x12, 0x34]" 11
      "\<lparr>version = 0, type = 0, seq = 0, cmd = 0, len = 0, data = None, crc = 0\<rparr>"]
    parse_frame_check_order [of "array_of [0xAA, 0x55, 0x10, 0x03, 0x07, 0x30, 0x01, 0x00, 0x00, 0x12, 0x34]" 10
      "\<lparr>version = 0, type = 0, seq = 0, cmd = 0, len = 0, data = None, crc = 0\<rparr>"]
    parse_frame_check_order [of "array_of [0xAA, 0x54, 0x10, 0x03, 0x07, 0x30, 0x01, 0x00, 0x00, 0x12, 0x34]" 11
      "\<lparr>version = 0, type = 0, seq = 0, cmd = 0, len = 0, data = None, crc = 0\<rparr>"]
    parse_frame_check_order [of "array_of [0xAA, 0x55, 0x10, 0x03, 0x07, 0x30, 0x01, 0x00, 0x01, 0x12, 0x34]" 11
      "\<lparr>version = 0, type = 0, seq = 0, cmd = 0, len = 0, data = None, crc = 0\<rparr>"]
  by (simp add: array_of_def)

subsection \<open>C4: the wire format of a built frame\<close>

text \<open>
  C4 holds for payloads of up to 65528 bytes (\<open>build_frame_wire_format\<close>,
  \<open>build_frame_bytes\<close>) and fails from 65529 on, where \<^verbatim>\<open>7 + data_len\<close> no longer fits
  the 16-bit \<open>crc_len\<close>. With 65529 payload bytes \<open>crc_len\<close> is 0: the two trailing bytes
  are 0xFF, 0xFF whatever the frame holds, and they are not the checksum of the
  65536 bytes from the version byte to the last payload byte when the last payload
  byte is the low byte of the checksum of the bytes before it.
\<close>

theorem wrapped_crc_is_not_the_checksum:
  "let k = spec_checksum
             (bytes_of (ptr_at (snd (build_frame buf t s c (Some p) 65529)) 2) (7 + 65528));
       b = snd (build_frame buf t s c (Some (p(65528 := ucast k))) 65529)
   in b (9 + 65529) = 0xFF \<and> b (9 + 65529 + 1) = 0xFF \<and>
      spec_checksum (bytes_of (ptr_at b 2) (7 + 65529)) \<noteq> 0xFFFF"
proof -
  define k where
    "k = spec_checksum (bytes_of (ptr_at (snd (build_frame buf t s c (Some p) 65529)) 2) (7 + 65528))"
  define b where "b = snd (build_frame buf t s c (Some (p(65528 := ucast k))) 65529)"
  let ?q = "p(65528 := ucast k)"
  have len: "unat (65529 :: u16) = 65529"
    by simp
  have same: "bytes_of ?q 65528 = bytes_of p 65528"
    by (simp add: bytes_of_def)
  have "bytes_of (ptr_at b 2) (7 + 65528) =
      bytes_of (ptr_at (snd (build_frame buf t s c (Some p) 65529)) 2) (7 + 65528)"
    unfolding b_def by (simp only: build_frame_checksummed len same)
  then have pre: "bytes_of (ptr_at b 2) 65535 =
      bytes_of (ptr_at (snd (build_frame buf t s c (Some p) 65529)) 2) 65535"
    by simp
  have "b (9 + 65528) = ?q 65528"
    unfolding b_def by (rule build_frame_payload) simp
  then have last: "ptr_at b 2 65535 = ucast k"
    by (simp add: ptr_at_def)
  have k: "spec_checksum (bytes_of (ptr_at (snd (build_frame buf t s c (Some p) 65529)) 2) 65535) = k"
    by (simp add: k_def)
  have "spec_checksum (bytes_of (ptr_at b 2) (Suc 65535)) =
      (spec_checksum_bit ^^ 8) (k XOR ucast (ucast k :: u8))"
    by (simp only: bytes_of_Suc spec_checksum_snoc last pre k)
  also have "\<dots> = drop_bit 8 k"
    by (rule spec_checksum_low_byte)
  finally have "spec_checksum (bytes_of (ptr_at b 2) (7 + 65529)) = drop_bit 8 k"
    by simp
  then have "b (9 + 65529) = 0xFF \<and> b (9 + 65529 + 1) = 0xFF \<and>
      spec_checksum (bytes_of (ptr_at b 2) (7 + 65529)) \<noteq> 0xFFFF"
    using build_frame_crc_len_wraps [of buf t s c "Some ?q"]
    by (simp add: b_def drop_bit8_not_FFFF)
  then show ?thesis
    unfolding Let_def k_def [symmetric] b_def [symmetric] .
qed

subsection \<open>C5: reference values of the checksum\<close>

text \<open>
  C5. \<open>crc16_modbus\<close> over an empty range (length 0) returns 0xFFFF, whatever the
  pointer, and over the nine ASCII bytes of "123456789", which are 0x31 to 0x39, it
  returns 0x4B37, the CRC-16/MODBUS check value.
\<close>

theorem crc16_modbus_reference_values:
  "crc16_modbus dat 0 = 0xFFFF \<and>
   map of_char ''123456789'' = [0x31, 0x32, 0x33, 0x34, 0x35, 0x36, 0x37, 0x38, 0x39 :: u8] \<and>
   crc16_modbus (array_of (map of_char ''123456789'')) 9 = 0x4B37"
proof (intro conjI)
  show "crc16_modbus dat 0 = 0xFFFF"
    by (simp add: crc16_modbus_def crc16_loop.simps)
  show "map of_char ''123456789'' = [0x31, 0x32, 0x33, 0x34, 0x35, 0x36, 0x37, 0x38, 0x39 :: u8]"
    by simp
  show "crc16_modbus (array_of (map of_char ''123456789'')) 9 = 0x4B37"
    by code_simp
qed

subsection \<open>C6: the decoder validates neither version nor checksum\<close>

text \<open>
  C6. Let a buffer pass the length, sync and completeness checks, with len field \<open>n\<close>.
  Put any byte \<open>v\<close> in place of its version byte and any two bytes \<open>k1\<close>, \<open>k2\<close> in place
  of its trailing checksum: \<open>parse_frame\<close> still succeeds with 9 + n + 2, and the frame
  it leaves has \<open>v\<close> as version and the number \<open>k1 * 256 + k2\<close> as crc. So no value of
  the version byte and no checksum, matching or not, makes the decoder fail: the
  checksum is copied into the frame and compared with nothing.
\<close>

theorem parse_frame_no_validation:
  assumes "11 \<le> unat buf_len" and "buf 0 = 0xAA" and "buf 1 = 0x55"
    and "9 + (unat (buf 7) * 256 + unat (buf 8)) + 2 \<le> unat buf_len"
    and "n = unat (buf 7) * 256 + unat (buf 8)"
    and "buf' = buf(2 := v, 9 + n := k1, 9 + n + 1 := k2)"
  shows "fst (parse_frame buf' buf_len f) = 9 + int n + 2 \<and>
         version (snd (parse_frame buf' buf_len f)) = v \<and>
         unat (crc (snd (parse_frame buf' buf_len f))) = unat k1 * 256 + unat k2"
proof -
  have n: "unat (be_to_u16 (ptr_at buf' 7)) = n"
    using assms(5,6) by (simp add: be_to_u16_val ptr_at_def)
  have "parse_frame buf' buf_len f =
    (9 + int (unat (be_to_u16 (ptr_at buf' 7))) + 2,
     f\<lparr>version := buf' 2, type := buf' 3, seq := buf' 4, cmd := be_to_u16 (ptr_at buf' 5),
       len := be_to_u16 (ptr_at buf' 7), data := Some 9,
       crc := be_to_u16 (ptr_at buf' (9 + unat (be_to_u16 (ptr_at buf' 7))))\<rparr>)"
    using assms n by (intro parse_frame_ok) simp_all
  then show ?thesis
    unfolding n using assms(6) by (simp add: be_to_u16_val ptr_at_def)
qed

text \<open>The theorem at an Ack frame given version 0x99 and the trailing bytes 0xDE, 0xAD.\<close>

theorem parse_frame_no_validation_witness:
  "fst (parse_frame ((array_of [0xAA, 0x55, 0x10, 0x03, 0x07, 0x30, 0x01, 0x00, 0x00, 0xF2, 0xE1])
          (2 := 0x99, 9 := 0xDE, 10 := 0xAD)) 11
        \<lparr>version = 0, type = 0, seq = 0, cmd = 0, len = 0, data = None, crc = 0\<rparr>) = 11 \<and>
   version (snd (parse_frame ((array_of [0xAA, 0x55, 0x10, 0x03, 0x07, 0x30, 0x01, 0x00, 0x00, 0xF2, 0xE1])
          (2 := 0x99, 9 := 0xDE, 10 := 0xAD)) 11
        \<lparr>version = 0, type = 0, seq = 0, cmd = 0, len = 0, data = None, crc = 0\<rparr>)) = 0x99 \<and>
   crc (snd (parse_frame ((array_of [0xAA, 0x55, 0x10, 0x03, 0x07, 0x30, 0x01, 0x00, 0x00, 0xF2, 0xE1])
          (2 := 0x99, 9 := 0xDE, 10 := 0xAD)) 11
        \<lparr>version = 0, type = 0, seq = 0, cmd = 0, len = 0, data = None, crc = 0\<rparr>)) = 0xDEAD"
  using parse_frame_no_validation [of 11
      "array_of [0xAA, 0x55, 0x10, 0x03, 0x07, 0x30, 0x01, 0x00, 0x00, 0xF2, 0xE1]" 0
      "(array_of [0xAA, 0x55, 0x10, 0x03, 0x07, 0x30, 0x01, 0x00, 0x00, 0xF2, 0xE1])
          (2 := 0x99, 9 := 0xDE, 10 := 0xAD)" "0x99" "0xDE" "0xAD"
      "\<lparr>version = 0, type = 0, seq = 0, cmd = 0, len = 0, data = None, crc = 0\<rparr>"]
  by (simp add: array_of_def word_eq_iff_unsigned [where ?'a = nat])

subsection \<open>C7: the motor-rotate scenario\<close>

text \<open>
  C7. \<open>build_motor_rotate\<close> for motor 0x01, angle 90.0 (pattern 0x42B40000) and velocity
  10.0 (pattern 0x41200000) returns 20 and writes a frame with type 0x00, the current
  counter value as seq, command 0x3001, len 9, the payload
  01 42 B4 00 00 41 20 00 00, and as trailing two bytes the checksum, high byte first,
  of the 16 bytes at offsets 2 to 17; that checksum is the same computed by the
  specification's wording on the listed bytes and by \<open>crc16_modbus\<close> on the buffer.
\<close>

theorem build_motor_rotate_scenario:
  "fst (fst (build_motor_rotate sc buf 0x01 0x42B40000 0x41200000)) = 20 \<and>
   bytes_of (snd (fst (build_motor_rotate sc buf 0x01 0x42B40000 0x41200000))) 20 =
     [0xAA, 0x55, 0x10, 0x00, sc, 0x30, 0x01, 0x00, 0x09,
      0x01, 0x42, 0xB4, 0x00, 0x00, 0x41, 0x20, 0x00, 0x00,
      ucast (drop_bit 8 (spec_checksum
        [0x10, 0x00, sc, 0x30, 0x01, 0x00, 0x09,
         0x01, 0x42, 0xB4, 0x00, 0x00, 0x41, 0x20, 0x00, 0x00])),
      ucast (spec_checksum
        [0x10, 0x00, sc, 0x30, 0x01, 0x00, 0x09,
         0x01, 0x42, 0xB4, 0x00, 0x00, 0x41, 0x20, 0x00, 0x00])] \<and>
   crc16_modbus (ptr_at (snd (fst (build_motor_rotate sc buf 0x01 0x42B40000 0x41200000))) 2) 16 =
     spec_checksum
        [0x10, 0x00, sc, 0x30, 0x01, 0x00, 0x09,
         0x01, 0x42, 0xB4, 0x00, 0x00, 0x41, 0x20, 0x00, 0x00]"
proof -
  define dat where "dat = write_at 5 (float_to_be 0x41200000)
      (write_at 1 (float_to_be 0x42B40000) ((array_of (replicate 9 0))(0 := 0x01)))"
  have r: "fst (build_motor_rotate sc buf 0x01 0x42B40000 0x41200000) =
      build_frame buf 0x00 sc 0x3001 (Some dat) 9"
    by (simp add: build_motor_rotate_def build_request_def next_seq_def Let_def
        TYPE_REQUEST_def CMD_MOTOR_ROTATE_def dat_def)
  have lo: "(12289 :: u8) = 1"
    by simp
  have payload: "bytes_of dat 9 = [0x01, 0x42, 0xB4, 0x00, 0x00, 0x41, 0x20, 0x00, 0x00]"
    unfolding dat_def motor_rotate_payload by simp
  have "bytes_of (snd (build_frame buf 0x00 sc 0x3001 (Some dat) 9)) (9 + unat (9 :: u16) + 2) =
     [0xAA, 0x55, 0x10, 0x00, sc, 0x30, 0x01, 0x00, 0x09,
      0x01, 0x42, 0xB4, 0x00, 0x00, 0x41, 0x20, 0x00, 0x00,
      ucast (drop_bit 8 (spec_checksum
        [0x10, 0x00, sc, 0x30, 0x01, 0x00, 0x09,
         0x01, 0x42, 0xB4, 0x00, 0x00, 0x41, 0x20, 0x00, 0x00])),
      ucast (spec_checksum
        [0x10, 0x00, sc, 0x30, 0x01, 0x00, 0x09,
         0x01, 0x42, 0xB4, 0x00, 0x00, 0x41, 0x20, 0x00, 0x00])]"
    by (subst build_frame_bytes) (simp_all add: payload lo)
  moreover have "crc16_modbus (ptr_at (snd (build_frame buf 0x00 sc 0x3001 (Some dat) 9)) 2) 16 =
     spec_checksum
        [0x10, 0x00, sc, 0x30, 0x01, 0x00, 0x09,
         0x01, 0x42, 0xB4, 0x00, 0x00, 0x41, 0x20, 0x00, 0x00]"
    using build_frame_checksummed [of 9 9 buf 0 sc "0x3001" dat]
    by (simp add: crc16_modbus_spec payload lo)
  ultimately show ?thesis
    unfolding r by (simp add: build_frame_ret)
qed

subsection \<open>C8: the sequence generator\<close>

text \<open>
  C8. \<open>next_seq\<close> returns the counter's value and leaves the counter one higher, modulo
  256: two calls in a row return consecutive values, and the call after one that
  returned 255 returns 0. \<open>build_request\<close> is \<open>build_frame\<close> with type Request and the
  counter's value as seq, and leaves the counter one higher; \<open>build_ack\<close>,
  \<open>build_response\<close> and \<open>build_nack\<close> put the seq they are given into the frame and leave
  the counter as it was.
\<close>

theorem sequence_generator_semantics:
  "next_seq sc = (sc, sc + 1) \<and>
   unat (snd (next_seq sc)) = (unat sc + 1) mod 256 \<and>
   fst (next_seq (snd (next_seq sc))) = fst (next_seq sc) + 1 \<and>
   fst (next_seq 255) = 255 \<and> fst (next_seq (snd (next_seq 255))) = 0 \<and>
   build_request sc buf c d dl = (build_frame buf TYPE_REQUEST sc c d dl, sc + 1) \<and>
   snd (fst (build_request sc buf c d dl)) 4 = sc \<and>
   build_ack sc buf s c = (build_frame buf TYPE_ACK s c None 0, sc) \<and>
   snd (fst (build_ack sc buf s c)) 4 = s \<and>
   build_response sc buf s c d dl = (build_frame buf TYPE_RESPONSE s c d dl, sc) \<and>
   snd (fst (build_response sc buf s c d dl)) 4 = s \<and>
   build_nack sc buf s c e = (build_frame buf TYPE_NACK s c (Some (array_of [e])) 1, sc) \<and>
   snd (fst (build_nack sc buf s c e)) 4 = s"
  by (simp add: next_seq_def build_request_def build_ack_def build_response_def build_nack_def
      build_frame_header unat_word_ariths)

subsection \<open>C9: the float codec\<close>

text \<open>
  C9. The float codec round-trips bit-exactly: for every 32-bit pattern \<open>val\<close>
  (NaN and subnormal patterns included, as the statement is about all of them),
  \<open>be_to_float\<close> reads back from the four bytes written by \<open>float_to_be\<close> exactly
  \<open>val\<close>; and the bytes are laid out most-significant first: read as base-256 digits
  with \<^verbatim>\<open>out[0]\<close> the leading one, they are the number \<open>val\<close>.
\<close>

theorem float_codec_roundtrip:
  "be_to_float (float_to_be val out) = val \<and>
   unat (float_to_be val out 0) * 2 ^ 24 + unat (float_to_be val out 1) * 2 ^ 16 +
   unat (float_to_be val out 2) * 2 ^ 8 + unat (float_to_be val out 3) = unat val"
proof
  show "be_to_float (float_to_be val out) = val"
    by (simp add: be_to_float_def float_to_be_def be_u32_split)
  show "unat (float_to_be val out 0) * 2 ^ 24 + unat (float_to_be val out 1) * 2 ^ 16 +
      unat (float_to_be val out 2) * 2 ^ 8 + unat (float_to_be val out 3) = unat val"
    by (rule float_to_be_digits)
qed

subsection \<open>C10: what a failed decode leaves in the frame\<close>

text \<open>
  C10. When \<open>parse_frame\<close> returns -1 (too short) or -2 (bad sync) the frame struct is
  as it was. When it returns -3 (incomplete) the fields version, type, seq, cmd and
  len hold the values read from the buffer, and the fields data and crc are as they
  were.
\<close>

theorem parse_frame_partial_update:
  "(unat buf_len < 11 \<longrightarrow> parse_frame buf buf_len f = (- 1, f)) \<and>
   (11 \<le> unat buf_len \<and> \<not> (buf 0 = 0xAA \<and> buf 1 = 0x55) \<longrightarrow>
      parse_frame buf buf_len f = (- 2, f)) \<and>
   (11 \<le> unat buf_len \<and> buf 0 = 0xAA \<and> buf 1 = 0x55 \<and>
    unat buf_len < 9 + (unat (buf 7) * 256 + unat (buf 8)) + 2 \<longrightarrow>
      fst (parse_frame buf buf_len f) = - 3 \<and>
      version (snd (parse_frame buf buf_len f)) = buf 2 \<and>
      type (snd (parse_frame buf buf_len f)) = buf 3 \<and>
      seq (snd (parse_frame buf buf_len f)) = buf 4 \<and>
      unat (cmd (snd (parse_frame buf buf_len f))) = unat (buf 5) * 256 + unat (buf 6) \<and>
      unat (len (snd (parse_frame buf buf_len f))) = unat (buf 7) * 256 + unat (buf 8) \<and>
      data (snd (parse_frame buf buf_len f)) = data f \<and>
      crc (snd (parse_frame buf buf_len f)) = crc f)"
proof -
  have len: "unat (be_to_u16 (ptr_at buf 7)) = unat (buf 7) * 256 + unat (buf 8)"
    by (simp add: be_to_u16_val ptr_at_def)
  have cmd: "unat (be_to_u16 (ptr_at buf 5)) = unat (buf 5) * 256 + unat (buf 6)"
    by (simp add: be_to_u16_val ptr_at_def)
  show ?thesis
    using parse_frame_incomplete [of buf_len buf f]
    by (auto simp add: parse_frame_too_short parse_frame_bad_sync len cmd)
qed

text \<open>The three failures on a frame struct filled with recognisable values.\<close>

theorem parse_frame_partial_update_witness:
  "parse_frame (array_of [0xAA, 0x55, 0x10, 0x03, 0x07, 0x30, 0x01, 0x00, 0x01, 0x12, 0x34]) 10
      \<lparr>version = 0xEE, type = 0xEE, seq = 0xEE, cmd = 0xEEEE, len = 0xEEEE, data = Some 3, crc = 0xBEEF\<rparr> =
    (- 1, \<lparr>version = 0xEE, type = 0xEE, seq = 0xEE, cmd = 0xEEEE, len = 0xEEEE, data = Some 3, crc = 0xBEEF\<rparr>) \<and>
   parse_frame (array_of [0xAA, 0x54, 0x10, 0x03, 0x07, 0x30, 0x01, 0x00, 0x01, 0x12, 0x34]) 11
      \<lparr>version = 0xEE, type = 0xEE, seq = 0xEE, cmd = 0xEEEE, len = 0xEEEE, data = Some 3, crc = 0xBEEF\<rparr> =
    (- 2, \<lparr>version = 0xEE, type = 0xEE, seq = 0xEE, cmd = 0xEEEE, len = 0xEEEE, data = Some 3, crc = 0xBEEF\<rparr>) \<and>
   parse_frame (array_of [0xAA, 0x55, 0x10, 0x03, 0x07, 0x30, 0x01, 0x00, 0x01, 0x12, 0x34]) 11
      \<lparr>version = 0xEE, type = 0xEE, seq = 0xEE, cmd = 0xEEEE, len = 0xEEEE, data = Some 3, crc = 0xBEEF\<rparr> =
    (- 3, \<lparr>version = 0x10, type = 0x03, seq = 0x07, cmd = 0x3001, len = 0x0001, data = Some 3, crc = 0xBEEF\<rparr>)"
  using
    parse_frame_partial_update [of 10 "array_of [0xAA, 0x55, 0x10, 0x03, 0x07, 0x30, 0x01, 0x00, 0x01, 0x12, 0x34]"
      "\<lparr>version = 0xEE, type = 0xEE, seq = 0xEE, cmd = 0xEEEE, len = 0xEEEE, data = Some 3, crc = 0xBEEF\<rparr>"]
    parse_frame_partial_update [of 11 "array_of [0xAA, 0x54, 0x10, 0x03, 0x07, 0x30, 0x01, 0x00, 0x01, 0x12, 0x34]"
      "\<lparr>version = 0xEE, type = 0xEE, seq = 0xEE, cmd = 0xEEEE, len = 0xEEEE, data = Some 3, crc = 0xBEEF\<rparr>"]
    parse_frame_partial_update [of 11 "array_of [0xAA, 0x55, 0x10, 0x03, 0x07, 0x30, 0x01, 0x00, 0x01, 0x12, 0x34]"
      "\<lparr>version = 0xEE, type = 0xEE, seq = 0xEE, cmd = 0xEEEE, len = 0xEEEE, data = Some 3, crc = 0xBEEF\<rparr>"]
  by (simp add: array_of_def prod_eq_iff protocol_frame.equality word_eq_iff_unsigned [where ?'a = nat])

end
